theory Spec2Isabelle
  imports Main "HOL-Library.Word"
begin

section \<open>The ChainLocks handler of src/llmq/quorums_chainlocks.cpp\<close>

text \<open>
  A shallow embedding of \<^verbatim>\<open>CChainLocksHandler\<close>. The handler's members form a record
  that every operation takes and returns; what an operation asks of its collaborators
  (clock, block index, active chain, signing manager, disk, mempool) is read from an
  environment record supplied with each call; what it tells them (relay, misbehaviour
  score, scheduled work, signing request, notification) is returned as a list of effects
  in program order. A failed \<^verbatim>\<open>assert\<close>, a \<^verbatim>\<open>std::map::at\<close> on a missing key and a null
  dereference end the call with an error instead of a state. Log lines are not modelled.

  Each operation is modelled as one atomic step: the mutexes \<^verbatim>\<open>cs\<close> and \<^verbatim>\<open>cs_main\<close> do
  not appear, and the clock is read once per call.
\<close>

subsection \<open>Data\<close>

text \<open>
  \<^verbatim>\<open>int\<close> and \<^verbatim>\<open>int32_t\<close> are 32-bit words, \<^verbatim>\<open>int64_t\<close> and \<^verbatim>\<open>NodeId\<close> 64-bit words;
  the source compares them as signed numbers, so the model uses \<open><s\<close> and \<open>\<le>s\<close>.
\<close>

type_synonym uint256 = "256 word"
type_synonym int32 = "32 word"
type_synonym int64 = "64 word"
type_synonym NodeId = "64 word"
type_synonym CBLSSignature = "768 word"

text \<open>
  Modelled from the spec: the declaration of \<^verbatim>\<open>CChainLockSig\<close> is in a header that is
  not among the sources. Section 3 gives its three attributes and the sentinel
  \<open>height = -1\<close> of a default-constructed value; the default block hash is the null hash
  and the default signature is represented by \<open>0\<close>.
\<close>

record CChainLockSig =
  nHeight :: int32
  blockHash :: uint256
  sig :: CBLSSignature

definition CChainLockSig_default :: CChainLockSig where
  "CChainLockSig_default = \<lparr>nHeight = - 1, blockHash = 0, sig = 0\<rparr>"

text \<open>
  A block-index entry with its chain of predecessors. The source holds pointers to
  entries owned by the chain engine; the model holds the entry itself, and pointer
  equality becomes equality of entries.
\<close>

datatype CBlockIndex =
  CBlockIndex (GetBlockHash: uint256) (bi_nHeight: int32) (pprev: "CBlockIndex option")

text \<open>
  Modelled from the spec: \<^verbatim>\<open>CBlockIndex::GetAncestor\<close> is defined in chain.cpp, which is
  not among the sources. The spec calls it the ancestor-at-height query of the chain
  engine: no entry for a height above the block's own or below zero, otherwise the entry
  at that height on the chain of predecessors.
\<close>

fun walkToHeight :: "CBlockIndex \<Rightarrow> int32 \<Rightarrow> CBlockIndex option" where
  "walkToHeight (CBlockIndex h n p) height =
     (if n = height then Some (CBlockIndex h n p)
      else case p of None \<Rightarrow> None | Some q \<Rightarrow> walkToHeight q height)"

definition GetAncestor :: "CBlockIndex \<Rightarrow> int32 \<Rightarrow> CBlockIndex option" where
  "GetAncestor pindex height =
     (if bi_nHeight pindex <s height \<or> height <s 0 then None
      else walkToHeight pindex height)"

record CTransaction =
  GetHash :: uint256
  IsCoinBase :: bool
  vin_empty :: bool

record CBlock =
  vtx :: "CTransaction list"
  nTime :: "32 word"

record CRecoveredSig =
  rs_id :: uint256
  rs_msgHash :: uint256
  rs_sig :: CBLSSignature

datatype error = AssertionFailed | OutOfRange | NullDereference

text \<open>What a call asks of the other subsystems, in program order.\<close>

datatype effect =
    VerifyRecoveredSigCall int32 uint256 uint256 CBLSSignature
  | Misbehaving NodeId int
  | RelayInv uint256
  | ScheduleCheckAndEnforce
  | ScheduleTipTask
  | AsyncSignIfMember uint256 uint256
  | InvalidateBlock uint256
  | ResetBlockFailureFlags uint256
  | ActivateBestChain
  | NotifyChainLock CBlockIndex

text \<open>
  The members of \<^verbatim>\<open>CChainLocksHandler\<close>. The three containers are association lists
  with at most one entry per key; \<^verbatim>\<open>emplace\<close> appends an entry only when the key is
  absent.
\<close>

record CChainLocksHandler =
  tryLockChainTipScheduled :: bool
  isSporkActive :: bool
  isEnforced :: bool
  bestChainLockHash :: uint256
  bestChainLock :: CChainLockSig
  bestChainLockWithKnownBlock :: CChainLockSig
  bestChainLockBlockIndex :: "CBlockIndex option"
  lastNotifyChainLockBlockIndex :: "CBlockIndex option"
  lastSignedHeight :: int32
  lastSignedRequestId :: uint256
  lastSignedMsgHash :: uint256
  blockTxs :: "(uint256 \<times> uint256 list) list"
  txFirstSeenTime :: "(uint256 \<times> int64) list"
  seenChainLocks :: "(uint256 \<times> int64) list"
  lastCleanupTime :: int64

text \<open>
  Modelled from the spec: the member initialisers are in the header, which is not among
  the sources. Section 3 gives \<open>height = -1\<close> for the initial best lock; hashes start as
  the null hash, pointers as null, containers empty. The two feature flags are never
  written by the source file, so the initial state takes them as arguments.
\<close>

definition initial_handler :: "bool \<Rightarrow> bool \<Rightarrow> CChainLocksHandler" where
  "initial_handler spork enforced =
     \<lparr>tryLockChainTipScheduled = False,
      isSporkActive = spork,
      isEnforced = enforced,
      bestChainLockHash = 0,
      bestChainLock = CChainLockSig_default,
      bestChainLockWithKnownBlock = CChainLockSig_default,
      bestChainLockBlockIndex = None,
      lastNotifyChainLockBlockIndex = None,
      lastSignedHeight = - 1,
      lastSignedRequestId = 0,
      lastSignedMsgHash = 0,
      blockTxs = [],
      txFirstSeenTime = [],
      seenChainLocks = [],
      lastCleanupTime = 0\<rparr>"

text \<open>
  The two overloads of \<^verbatim>\<open>::SerializeHash\<close> the file uses (hash.h is not among the
  sources) are parameters of the model: the canonical hash of a CLSIG, and the hash of
  the pair of the prefix "clsig" and a height that gives the request id.
\<close>

record Hasher =
  SerializeHash :: "CChainLockSig \<Rightarrow> uint256"
  SerializeHash_requestId :: "int32 \<Rightarrow> uint256"

text \<open>The collaborators, as one call sees them.\<close>

record Env =
  GetTimeMillis :: int64
  GetAdjustedTime :: int64
  fMasternodeMode :: bool
  IsBlockchainSynced :: bool
  BlockIndex :: "uint256 \<rightharpoonup> CBlockIndex"
  PrevBlockIndex :: "(uint256 \<times> CBlockIndex) list"
  ChainActive_Tip :: "CBlockIndex option"
  ChainActive_Contains :: "CBlockIndex \<Rightarrow> bool"
  VerifyRecoveredSig :: "int32 \<Rightarrow> uint256 \<Rightarrow> uint256 \<Rightarrow> CBLSSignature \<Rightarrow> bool"
  ReadBlockFromDisk :: "CBlockIndex \<Rightarrow> CBlock option"
  GetTransaction :: "uint256 \<rightharpoonup> uint256"
  InvalidateBlock_ok :: "CBlockIndex \<Rightarrow> bool"
  BlockIsValid :: "CBlockIndex \<Rightarrow> bool"
  ActivateBestChain_ok :: bool
  Tip_afterActivate :: "CBlockIndex option"

text \<open>
  Modelled from the spec: the three constants are declared in the header. Section 6
  gives 30 s and 3600 s for the two cleanup constants, which the source compares with
  millisecond clock differences, and 600 s for the instant-send wait.
\<close>

definition CLEANUP_INTERVAL :: int64 where
  "CLEANUP_INTERVAL = 30000"

definition CLEANUP_SEEN_TIMEOUT :: int64 where
  "CLEANUP_SEEN_TIMEOUT = 3600000"

definition WAIT_FOR_ISLOCK_TIMEOUT :: int64 where
  "WAIT_FOR_ISLOCK_TIMEOUT = 600"

subsection \<open>Queries\<close>

definition AlreadyHave :: "CChainLocksHandler \<Rightarrow> uint256 \<Rightarrow> bool" where
  "AlreadyHave s hash = (map_of (seenChainLocks s) hash \<noteq> None)"

text \<open>The out-parameter \<^verbatim>\<open>ret\<close> is passed in and returned next to the result.\<close>

definition GetChainLockByHash ::
  "CChainLocksHandler \<Rightarrow> uint256 \<Rightarrow> CChainLockSig \<Rightarrow> bool \<times> CChainLockSig" where
  "GetChainLockByHash s hash ret =
     (if hash \<noteq> bestChainLockHash s then (False, ret)
      else (True, bestChainLock s))"

definition InternalHasChainLock :: "CChainLocksHandler \<Rightarrow> int32 \<Rightarrow> uint256 \<Rightarrow> bool" where
  "InternalHasChainLock s height hash =
     (if \<not> isEnforced s then False
      else case bestChainLockBlockIndex s of
        None \<Rightarrow> False
      | Some pindex \<Rightarrow>
          if bi_nHeight pindex <s height then False
          else if height = bi_nHeight pindex then hash = GetBlockHash pindex
          else (case GetAncestor pindex height of
                  None \<Rightarrow> False
                | Some pAncestor \<Rightarrow> GetBlockHash pAncestor = hash))"

definition HasChainLock :: "CChainLocksHandler \<Rightarrow> int32 \<Rightarrow> uint256 \<Rightarrow> bool" where
  "HasChainLock s height hash = InternalHasChainLock s height hash"

text \<open>\<^verbatim>\<open>assert(pAncestor)\<close> ends the call when the ancestor is missing.\<close>

definition InternalHasConflictingChainLock ::
  "CChainLocksHandler \<Rightarrow> int32 \<Rightarrow> uint256 \<Rightarrow> error + bool" where
  "InternalHasConflictingChainLock s height hash =
     (if \<not> isEnforced s then Inr False
      else case bestChainLockBlockIndex s of
        None \<Rightarrow> Inr False
      | Some pindex \<Rightarrow>
          if bi_nHeight pindex <s height then Inr False
          else if height = bi_nHeight pindex then Inr (hash \<noteq> GetBlockHash pindex)
          else (case GetAncestor pindex height of
                  None \<Rightarrow> Inl AssertionFailed
                | Some pAncestor \<Rightarrow> Inr (GetBlockHash pAncestor \<noteq> hash)))"

definition HasConflictingChainLock ::
  "CChainLocksHandler \<Rightarrow> int32 \<Rightarrow> uint256 \<Rightarrow> error + bool" where
  "HasConflictingChainLock s height hash = InternalHasConflictingChainLock s height hash"

definition IsTxSafeForMining :: "Env \<Rightarrow> CChainLocksHandler \<Rightarrow> uint256 \<Rightarrow> bool" where
  "IsTxSafeForMining e s txid =
     (if \<not> isSporkActive s then True
      else
        let txAge = (case map_of (txFirstSeenTime s) txid of
                       None \<Rightarrow> 0
                     | Some t \<Rightarrow> GetAdjustedTime e - t)
        in if txAge <s WAIT_FOR_ISLOCK_TIMEOUT then False else True)"

subsection \<open>Containers\<close>

text \<open>\<^verbatim>\<open>emplace\<close> on a map and on a set: nothing changes when the key is present.\<close>

definition emplace :: "'k \<Rightarrow> 'v \<Rightarrow> ('k \<times> 'v) list \<Rightarrow> ('k \<times> 'v) list" where
  "emplace k v m = (if map_of m k = None then m @ [(k, v)] else m)"

definition set_emplace :: "'a \<Rightarrow> 'a list \<Rightarrow> 'a list" where
  "set_emplace x xs = (if x \<in> set xs then xs else xs @ [x])"

definition erase :: "'k \<Rightarrow> ('k \<times> 'v) list \<Rightarrow> ('k \<times> 'v) list" where
  "erase k m = filter (\<lambda>kv. fst kv \<noteq> k) m"

definition keepEntry :: "'a \<Rightarrow> error + 'a list \<Rightarrow> error + 'a list" where
  "keepEntry x r = (case r of Inl err \<Rightarrow> Inl err | Inr xs \<Rightarrow> Inr (x # xs))"

subsection \<open>Active-state reset\<close>

definition CheckActiveState :: "CChainLocksHandler \<Rightarrow> CChainLocksHandler" where
  "CheckActiveState s =
     s\<lparr>bestChainLockHash := 0,
       bestChainLock := CChainLockSig_default,
       bestChainLockWithKnownBlock := CChainLockSig_default,
       bestChainLockBlockIndex := None,
       lastNotifyChainLockBlockIndex := None\<rparr>"

subsection \<open>Ingest pipeline\<close>

definition ProcessNewChainLock ::
  "Hasher \<Rightarrow> Env \<Rightarrow> CChainLocksHandler \<Rightarrow> NodeId \<Rightarrow> CChainLockSig \<Rightarrow> uint256
     \<Rightarrow> error + CChainLocksHandler \<times> effect list" where
  "ProcessNewChainLock hs e s from clsig hash =
     (if map_of (seenChainLocks s) hash \<noteq> None then Inr (s, [])
      else
        let s1 = s\<lparr>seenChainLocks := seenChainLocks s @ [(hash, GetTimeMillis e)]\<rparr> in
        if nHeight (bestChainLock s1) \<noteq> - 1 \<and> nHeight clsig \<le>s nHeight (bestChainLock s1)
        then Inr (s1, [])
        else
          let requestId = SerializeHash_requestId hs (nHeight clsig);
              msgHash = blockHash clsig;
              verify = VerifyRecoveredSigCall (nHeight clsig) requestId msgHash (sig clsig)
          in
          if \<not> VerifyRecoveredSig e (nHeight clsig) requestId msgHash (sig clsig)
          then Inr (s1, verify # (if from \<noteq> - 1 then [Misbehaving from 10] else []))
          else
            (case InternalHasConflictingChainLock s1 (nHeight clsig) (blockHash clsig) of
               Inl err \<Rightarrow> Inl err
             | Inr True \<Rightarrow> Inr (s1, [verify])
             | Inr False \<Rightarrow>
                 let s2 = s1\<lparr>bestChainLockHash := hash, bestChainLock := clsig\<rparr> in
                 (case BlockIndex e (blockHash clsig) of
                    None \<Rightarrow> Inr (s2, [verify, RelayInv hash])
                  | Some pindex \<Rightarrow>
                      if bi_nHeight pindex \<noteq> nHeight clsig
                      then Inr (s2, [verify, RelayInv hash])
                      else Inr (s2\<lparr>bestChainLockWithKnownBlock := bestChainLock s2,
                                   bestChainLockBlockIndex := Some pindex\<rparr>,
                                [verify, RelayInv hash, ScheduleCheckAndEnforce]))))"

text \<open>
  \<^verbatim>\<open>ProcessMessage\<close> receives the CLSIG already decoded from \<^verbatim>\<open>vRecv\<close>;
  \<^verbatim>\<open>NetMsgType::CLSIG\<close> is the command string "clsig".
\<close>

definition ProcessMessage ::
  "Hasher \<Rightarrow> Env \<Rightarrow> CChainLocksHandler \<Rightarrow> NodeId \<Rightarrow> string \<Rightarrow> CChainLockSig
     \<Rightarrow> error + CChainLocksHandler \<times> effect list" where
  "ProcessMessage hs e s pfrom strCommand clsig =
     (if strCommand = ''clsig''
      then ProcessNewChainLock hs e s pfrom clsig (SerializeHash hs clsig)
      else Inr (s, []))"

definition HandleNewRecoveredSig ::
  "Hasher \<Rightarrow> Env \<Rightarrow> CChainLocksHandler \<Rightarrow> CRecoveredSig
     \<Rightarrow> error + CChainLocksHandler \<times> effect list" where
  "HandleNewRecoveredSig hs e s recoveredSig =
     (if \<not> isSporkActive s then Inr (s, [])
      else if rs_id recoveredSig \<noteq> lastSignedRequestId s
              \<or> rs_msgHash recoveredSig \<noteq> lastSignedMsgHash s then Inr (s, [])
      else if lastSignedHeight s \<le>s nHeight (bestChainLock s) then Inr (s, [])
      else
        let clsig = \<lparr>nHeight = lastSignedHeight s,
                     blockHash = lastSignedMsgHash s,
                     sig = rs_sig recoveredSig\<rparr>
        in ProcessNewChainLock hs e s (- 1) clsig (SerializeHash hs clsig))"

definition AcceptedBlockHeader :: "CChainLocksHandler \<Rightarrow> CBlockIndex \<Rightarrow> CChainLocksHandler" where
  "AcceptedBlockHeader s pindexNew =
     (if GetBlockHash pindexNew = blockHash (bestChainLock s)
      then
        if nHeight (bestChainLock s) \<noteq> bi_nHeight pindexNew then s
        else s\<lparr>bestChainLockWithKnownBlock := bestChainLock s,
               bestChainLockBlockIndex := Some pindexNew\<rparr>
      else s)"

definition UpdatedBlockTip :: "CChainLocksHandler \<Rightarrow> CChainLocksHandler \<times> effect list" where
  "UpdatedBlockTip s =
     (if tryLockChainTipScheduled s then (s, [])
      else (s\<lparr>tryLockChainTipScheduled := True\<rparr>, [ScheduleTipTask]))"

subsection \<open>Block-tx tracker\<close>

definition SyncTransaction ::
  "Env \<Rightarrow> CChainLocksHandler \<Rightarrow> CTransaction \<Rightarrow> CBlockIndex option \<Rightarrow> CChainLocksHandler" where
  "SyncTransaction e s tx pindex =
     (if \<not> IsBlockchainSynced e then s
      else
        let handleTx = \<not> (IsCoinBase tx \<or> vin_empty tx);
            s1 = (if handleTx
                  then s\<lparr>txFirstSeenTime :=
                           emplace (GetHash tx) (GetAdjustedTime e) (txFirstSeenTime s)\<rparr>
                  else s)
        in case pindex of
             None \<Rightarrow> s1
           | Some p \<Rightarrow>
               let b1 = emplace (GetBlockHash p) [] (blockTxs s1) in
               s1\<lparr>blockTxs :=
                    (if handleTx
                     then map (\<lambda>(k, txs). if k = GetBlockHash p
                                           then (k, set_emplace (GetHash tx) txs)
                                           else (k, txs)) b1
                     else b1)\<rparr>)"

text \<open>The result is the shared set of txids, or the null pointer after a failed disk read.\<close>

definition GetBlockTxs ::
  "Env \<Rightarrow> CChainLocksHandler \<Rightarrow> uint256
     \<Rightarrow> error + CChainLocksHandler \<times> uint256 list option" where
  "GetBlockTxs e s hash =
     (case map_of (blockTxs s) hash of
        Some txs \<Rightarrow> Inr (s, Some txs)
      | None \<Rightarrow>
          (case BlockIndex e hash of
             None \<Rightarrow> Inl OutOfRange
           | Some pindex \<Rightarrow>
               (case ReadBlockFromDisk e pindex of
                  None \<Rightarrow> Inr (s, None)
                | Some block \<Rightarrow>
                    let ret = fold (\<lambda>tx acc. if IsCoinBase tx \<or> vin_empty tx then acc
                                               else set_emplace (GetHash tx) acc)
                                   (vtx block) [];
                        blockTime = (ucast (nTime block) :: int64)
                    in Inr (s\<lparr>blockTxs := emplace hash ret (blockTxs s),
                              txFirstSeenTime :=
                                fold (\<lambda>txid m. emplace txid blockTime m) ret (txFirstSeenTime s)\<rparr>,
                            Some ret))))"

subsection \<open>Cleanup\<close>

text \<open>The loop over \<^verbatim>\<open>blockTxs\<close>; it also erases from \<^verbatim>\<open>txFirstSeenTime\<close>.\<close>

fun cleanupBlockTxs ::
  "Env \<Rightarrow> CChainLocksHandler \<Rightarrow> (uint256 \<times> uint256 list) list \<Rightarrow> (uint256 \<times> int64) list
     \<Rightarrow> error + (uint256 \<times> uint256 list) list \<times> (uint256 \<times> int64) list" where
  "cleanupBlockTxs e s [] firstSeen = Inr ([], firstSeen)"
| "cleanupBlockTxs e s ((hash, txs) # rest) firstSeen =
     (case BlockIndex e hash of
        None \<Rightarrow> Inl OutOfRange
      | Some pindex \<Rightarrow>
          if InternalHasChainLock s (bi_nHeight pindex) (GetBlockHash pindex)
          then cleanupBlockTxs e s rest (fold erase txs firstSeen)
          else
            (case InternalHasConflictingChainLock s (bi_nHeight pindex) (GetBlockHash pindex) of
               Inl err \<Rightarrow> Inl err
             | Inr True \<Rightarrow> cleanupBlockTxs e s rest firstSeen
             | Inr False \<Rightarrow>
                 (case cleanupBlockTxs e s rest firstSeen of
                    Inl err \<Rightarrow> Inl err
                  | Inr (kept, firstSeen') \<Rightarrow> Inr ((hash, txs) # kept, firstSeen'))))"

text \<open>The loop over \<^verbatim>\<open>txFirstSeenTime\<close>.\<close>

fun cleanupTxFirstSeen ::
  "Env \<Rightarrow> (uint256 \<times> int64) list \<Rightarrow> error + (uint256 \<times> int64) list" where
  "cleanupTxFirstSeen e [] = Inr []"
| "cleanupTxFirstSeen e ((txid, t) # rest) =
     (case GetTransaction e txid of
        None \<Rightarrow> cleanupTxFirstSeen e rest
      | Some hashBlock \<Rightarrow>
          if hashBlock \<noteq> 0
          then
            (case BlockIndex e hashBlock of
               None \<Rightarrow> Inl OutOfRange
             | Some pindex \<Rightarrow>
                 (case ChainActive_Tip e of
                    None \<Rightarrow> Inl NullDereference
                  | Some tip \<Rightarrow>
                      if GetAncestor tip (bi_nHeight pindex) = Some pindex
                         \<and> 6 \<le>s bi_nHeight tip - bi_nHeight pindex
                      then cleanupTxFirstSeen e rest
                      else keepEntry (txid, t) (cleanupTxFirstSeen e rest)))
          else keepEntry (txid, t) (cleanupTxFirstSeen e rest))"

definition Cleanup :: "Env \<Rightarrow> CChainLocksHandler \<Rightarrow> error + CChainLocksHandler" where
  "Cleanup e s =
     (if \<not> IsBlockchainSynced e then Inr s
      else if GetTimeMillis e - lastCleanupTime s <s CLEANUP_INTERVAL then Inr s
      else
        let seen' = filter (\<lambda>(h, t). \<not> CLEANUP_SEEN_TIMEOUT \<le>s GetTimeMillis e - t)
                           (seenChainLocks s)
        in case cleanupBlockTxs e s (blockTxs s) (txFirstSeenTime s) of
             Inl err \<Rightarrow> Inl err
           | Inr (blocks', first') \<Rightarrow>
               (case cleanupTxFirstSeen e first' of
                  Inl err \<Rightarrow> Inl err
                | Inr first'' \<Rightarrow>
                    Inr (s\<lparr>seenChainLocks := seen',
                           blockTxs := blocks',
                           txFirstSeenTime := first'',
                           lastCleanupTime := GetTimeMillis e\<rparr>)))"

subsection \<open>Signer\<close>

definition TrySignChainTip ::
  "Hasher \<Rightarrow> Env \<Rightarrow> CChainLocksHandler \<Rightarrow> error + CChainLocksHandler \<times> effect list" where
  "TrySignChainTip hs e s =
     (case Cleanup e s of
        Inl err \<Rightarrow> Inl err
      | Inr s1 \<Rightarrow>
          if \<not> fMasternodeMode e then Inr (s1, [])
          else if \<not> IsBlockchainSynced e then Inr (s1, [])
          else
            (case ChainActive_Tip e of
               None \<Rightarrow> Inl NullDereference
             | Some pindex \<Rightarrow>
                 if pprev pindex = None then Inr (s1, [])
                 else if \<not> isSporkActive s1 then Inr (s1, [])
                 else if bi_nHeight pindex = lastSignedHeight s1 then Inr (s1, [])
                 else if bi_nHeight pindex \<le>s nHeight (bestChainLock s1) then Inr (s1, [])
                 else
                   (case InternalHasConflictingChainLock s1 (bi_nHeight pindex)
                           (GetBlockHash pindex) of
                      Inl err \<Rightarrow> Inl err
                    | Inr True \<Rightarrow> Inr (s1, [])
                    | Inr False \<Rightarrow>
                        let requestId = SerializeHash_requestId hs (bi_nHeight pindex);
                            msgHash = GetBlockHash pindex
                        in
                        if bi_nHeight pindex \<le>s nHeight (bestChainLock s1) then Inr (s1, [])
                        else Inr (s1\<lparr>lastSignedHeight := bi_nHeight pindex,
                                     lastSignedRequestId := requestId,
                                     lastSignedMsgHash := msgHash\<rparr>,
                                  [AsyncSignIfMember requestId msgHash]))))"

subsection \<open>Enforcer\<close>

definition DoInvalidateBlock :: "Env \<Rightarrow> CBlockIndex \<Rightarrow> bool \<Rightarrow> error + effect list" where
  "DoInvalidateBlock e pindex activateBestChain =
     (if \<not> InvalidateBlock_ok e pindex then Inl AssertionFailed
      else if activateBestChain \<and> \<not> ActivateBestChain_ok e then Inl AssertionFailed
      else Inr (InvalidateBlock (GetBlockHash pindex)
                # (if activateBestChain then [ActivateBestChain] else [])))"

fun invalidateAll :: "Env \<Rightarrow> CBlockIndex list \<Rightarrow> error + effect list" where
  "invalidateAll e [] = Inr []"
| "invalidateAll e (j # js) =
     (case DoInvalidateBlock e j False of
        Inl err \<Rightarrow> Inl err
      | Inr fx \<Rightarrow> (case invalidateAll e js of
                     Inl err \<Rightarrow> Inl err
                   | Inr fx' \<Rightarrow> Inr (fx @ fx')))"

text \<open>
  The walk from the locked block back to the active chain. Reading
  \<^verbatim>\<open>pindex->pprev->GetBlockHash()\<close> at a block without predecessor is a null dereference.
\<close>

fun invalidateSiblings :: "Env \<Rightarrow> CBlockIndex \<Rightarrow> error + effect list" where
  "invalidateSiblings e (CBlockIndex h n p) =
     (if ChainActive_Contains e (CBlockIndex h n p) then Inr []
      else case p of
        None \<Rightarrow> Inl NullDereference
      | Some prev \<Rightarrow>
          (case invalidateAll e
                  (filter (\<lambda>j. j \<noteq> CBlockIndex h n p)
                     (map snd (filter (\<lambda>kv. fst kv = GetBlockHash prev) (PrevBlockIndex e)))) of
             Inl err \<Rightarrow> Inl err
           | Inr fx \<Rightarrow> (case invalidateSiblings e prev of
                          Inl err \<Rightarrow> Inl err
                        | Inr fx' \<Rightarrow> Inr (fx @ fx'))))"

text \<open>
  In this call \<^verbatim>\<open>ChainActive_Tip\<close> is the tip read after the walk and
  \<^verbatim>\<open>Tip_afterActivate\<close> the tip read after \<^verbatim>\<open>ActivateBestChain\<close>.
\<close>

definition EnforceBestChainLock ::
  "Env \<Rightarrow> CChainLocksHandler \<Rightarrow> error + CChainLocksHandler \<times> effect list" where
  "EnforceBestChainLock e s =
     (if \<not> isEnforced s then Inr (s, [])
      else case bestChainLockBlockIndex s of
        None \<Rightarrow> Inr (s, [])
      | Some cur \<Rightarrow>
          (case invalidateSiblings e cur of
             Inl err \<Rightarrow> Inl err
           | Inr fx1 \<Rightarrow>
               if \<not> BlockIsValid e cur \<and> BlockIndex e (GetBlockHash cur) = None
               then Inl OutOfRange
               else
                 let fx2 = (if \<not> BlockIsValid e cur
                            then [ResetBlockFailureFlags (GetBlockHash cur)] else [])
                 in case ChainActive_Tip e of
                      None \<Rightarrow> Inl NullDereference
                    | Some tip \<Rightarrow>
                        let activateNeeded = (GetAncestor tip (bi_nHeight cur) \<noteq> Some cur);
                            fx3 = (if activateNeeded then [ActivateBestChain] else []);
                            tip2 = (if activateNeeded then Tip_afterActivate e else Some tip)
                        in case tip2 of
                             None \<Rightarrow> Inl NullDereference
                           | Some t2 \<Rightarrow>
                               if lastNotifyChainLockBlockIndex s \<noteq> Some cur
                                  \<and> GetAncestor t2 (bi_nHeight cur) = Some cur
                               then Inr (s\<lparr>lastNotifyChainLockBlockIndex := Some cur\<rparr>,
                                         fx1 @ fx2 @ fx3 @ [NotifyChainLock cur])
                               else Inr (s, fx1 @ fx2 @ fx3)))"

subsection \<open>Scheduled work\<close>

text \<open>
  The three closures the file hands to the scheduler: the one
  \<^verbatim>\<open>ProcessNewChainLock\<close> schedules, the periodic one of \<^verbatim>\<open>Start\<close>, and the one of
  \<^verbatim>\<open>UpdatedBlockTip\<close>.
\<close>

definition ScheduledCheckAndEnforce ::
  "Env \<Rightarrow> CChainLocksHandler \<Rightarrow> error + CChainLocksHandler \<times> effect list" where
  "ScheduledCheckAndEnforce e s = EnforceBestChainLock e (CheckActiveState s)"

definition ScheduledTick ::
  "Hasher \<Rightarrow> Env \<Rightarrow> CChainLocksHandler \<Rightarrow> error + CChainLocksHandler \<times> effect list" where
  "ScheduledTick hs e s =
     (case EnforceBestChainLock e (CheckActiveState s) of
        Inl err \<Rightarrow> Inl err
      | Inr (s1, fx1) \<Rightarrow>
          (case TrySignChainTip hs e s1 of
             Inl err \<Rightarrow> Inl err
           | Inr (s2, fx2) \<Rightarrow> Inr (s2, fx1 @ fx2)))"

definition ScheduledTipTask ::
  "Hasher \<Rightarrow> Env \<Rightarrow> CChainLocksHandler \<Rightarrow> error + CChainLocksHandler \<times> effect list" where
  "ScheduledTipTask hs e s =
     (case ScheduledTick hs e s of
        Inl err \<Rightarrow> Inl err
      | Inr (s2, fx) \<Rightarrow> Inr (s2\<lparr>tryLockChainTipScheduled := False\<rparr>, fx))"

subsection \<open>Runs of the handler\<close>

text \<open>One constructor per entry point that changes the handler, with the call's arguments.\<close>

datatype op =
    OpProcessNewChainLock Env NodeId CChainLockSig uint256
  | OpProcessMessage Env NodeId string CChainLockSig
  | OpHandleNewRecoveredSig Env CRecoveredSig
  | OpAcceptedBlockHeader CBlockIndex
  | OpUpdatedBlockTip
  | OpCheckActiveState
  | OpEnforceBestChainLock Env
  | OpTrySignChainTip Env
  | OpSyncTransaction Env CTransaction "CBlockIndex option"
  | OpGetBlockTxs Env uint256
  | OpCleanup Env
  | OpScheduledCheckAndEnforce Env
  | OpScheduledTick Env
  | OpScheduledTipTask Env

fun step ::
  "Hasher \<Rightarrow> CChainLocksHandler \<Rightarrow> op \<Rightarrow> error + CChainLocksHandler \<times> effect list" where
  "step hs s (OpProcessNewChainLock e from clsig hash) = ProcessNewChainLock hs e s from clsig hash"
| "step hs s (OpProcessMessage e pfrom strCommand clsig) = ProcessMessage hs e s pfrom strCommand clsig"
| "step hs s (OpHandleNewRecoveredSig e recoveredSig) = HandleNewRecoveredSig hs e s recoveredSig"
| "step hs s (OpAcceptedBlockHeader pindexNew) = Inr (AcceptedBlockHeader s pindexNew, [])"
| "step hs s OpUpdatedBlockTip = Inr (UpdatedBlockTip s)"
| "step hs s OpCheckActiveState = Inr (CheckActiveState s, [])"
| "step hs s (OpEnforceBestChainLock e) = EnforceBestChainLock e s"
| "step hs s (OpTrySignChainTip e) = TrySignChainTip hs e s"
| "step hs s (OpSyncTransaction e tx pindex) = Inr (SyncTransaction e s tx pindex, [])"
| "step hs s (OpGetBlockTxs e hash) =
     (case GetBlockTxs e s hash of Inl err \<Rightarrow> Inl err | Inr (s', ret) \<Rightarrow> Inr (s', []))"
| "step hs s (OpCleanup e) =
     (case Cleanup e s of Inl err \<Rightarrow> Inl err | Inr s' \<Rightarrow> Inr (s', []))"
| "step hs s (OpScheduledCheckAndEnforce e) = ScheduledCheckAndEnforce e s"
| "step hs s (OpScheduledTick e) = ScheduledTick hs e s"
| "step hs s (OpScheduledTipTask e) = ScheduledTipTask hs e s"

text \<open>A run stops at the first call that ends with an error.\<close>

fun runOps :: "Hasher \<Rightarrow> CChainLocksHandler \<Rightarrow> op list \<Rightarrow> error + CChainLocksHandler" where
  "runOps hs s [] = Inr s"
| "runOps hs s (x # xs) =
     (case step hs s x of Inl err \<Rightarrow> Inl err | Inr (s', fx) \<Rightarrow> runOps hs s' xs)"



text \<open>
  A sequence of \<^verbatim>\<open>ProcessNewChainLock\<close> calls, each with its own environment and
  arguments, and the signed value of \<^verbatim>\<open>bestChainLock.nHeight\<close> after each call.
\<close>

type_synonym pncl_call = "Env \<times> NodeId \<times> CChainLockSig \<times> uint256"


text \<open>The same sequence, with the effects of each call next to the hash it was given.\<close>

fun pnclTrace ::
  "Hasher \<Rightarrow> CChainLocksHandler \<Rightarrow> pncl_call list \<Rightarrow> (uint256 \<times> effect list) list" where
  "pnclTrace hs s [] = []"
| "pnclTrace hs s ((e, from, clsig, hash) # calls) =
     (case ProcessNewChainLock hs e s from clsig hash of
        Inl err \<Rightarrow> []
      | Inr (s', fx) \<Rightarrow> (hash, fx) # pnclTrace hs s' calls)"

fun isVerifyCall :: "effect \<Rightarrow> bool" where
  "isVerifyCall (VerifyRecoveredSigCall h r m sg) = True"
| "isVerifyCall x = False"

fun isRelayInv :: "effect \<Rightarrow> bool" where
  "isRelayInv (RelayInv h) = True"
| "isRelayInv x = False"

fun isMisbehaving :: "effect \<Rightarrow> bool" where
  "isMisbehaving (Misbehaving p w) = True"
| "isMisbehaving x = False"

text \<open>How often the verifier was called by the calls that carried the hash \<open>h\<close>.\<close>

definition verifyCount :: "uint256 \<Rightarrow> (uint256 \<times> effect list) list \<Rightarrow> nat" where
  "verifyCount h tr =
     length (filter isVerifyCall (concat (map snd (filter (\<lambda>x. fst x = h) tr))))"


subsection \<open>Predicates used in the statements\<close>

text \<open>Two states agree on the best lock and on its hash.\<close>

definition sameBest :: "CChainLocksHandler \<Rightarrow> CChainLocksHandler \<Rightarrow> bool" where
  "sameBest s s' =
     (bestChainLock s' = bestChainLock s \<and> bestChainLockHash s' = bestChainLockHash s)"

text \<open>
  The stored hash is the canonical hash of the stored lock, or both are in the state that
  \<^verbatim>\<open>CheckActiveState\<close> and the constructor leave behind.
\<close>

definition hashInv :: "Hasher \<Rightarrow> CChainLocksHandler \<Rightarrow> bool" where
  "hashInv hs s =
     (bestChainLockHash s = SerializeHash hs (bestChainLock s)
      \<or> (bestChainLockHash s = 0 \<and> bestChainLock s = CChainLockSig_default))"

text \<open>
  A direct call of \<^verbatim>\<open>ProcessNewChainLock\<close> is given the canonical hash of its CLSIG, as
  both callers in the file do.
\<close>

fun canonicalHash :: "Hasher \<Rightarrow> op \<Rightarrow> bool" where
  "canonicalHash hs (OpProcessNewChainLock e from clsig hash) = (hash = SerializeHash hs clsig)"
| "canonicalHash hs x = True"

subsection \<open>Sample inputs\<close>

text \<open>A chain of three blocks with hashes 10, 11, 12 at heights 0, 1, 2.\<close>

definition sampleChain :: CBlockIndex where
  "sampleChain = CBlockIndex 12 2 (Some (CBlockIndex 11 1 (Some (CBlockIndex 10 0 None))))"

text \<open>
  A stand-in for the two hash functions, enough to run the model; the theorems that hold
  for the source hold for every \<open>Hasher\<close>.
\<close>

definition sampleHasher :: Hasher where
  "sampleHasher = \<lparr>SerializeHash = (\<lambda>c. blockHash c + 1),
                   SerializeHash_requestId = (\<lambda>h. ucast h + 1000)\<rparr>"

text \<open>
  A synced masternode at time 1000 whose active chain is the sample chain and whose
  signing manager accepts every signature.
\<close>

definition sampleEnv :: Env where
  "sampleEnv =
     \<lparr>GetTimeMillis = 1000,
      GetAdjustedTime = 1000,
      fMasternodeMode = True,
      IsBlockchainSynced = True,
      BlockIndex = [12 \<mapsto> sampleChain],
      PrevBlockIndex = [],
      ChainActive_Tip = Some sampleChain,
      ChainActive_Contains = (\<lambda>b. True),
      VerifyRecoveredSig = (\<lambda>h r m sg. True),
      ReadBlockFromDisk = (\<lambda>b. None),
      GetTransaction = Map.empty,
      InvalidateBlock_ok = (\<lambda>b. True),
      BlockIsValid = (\<lambda>b. True),
      ActivateBestChain_ok = True,
      Tip_afterActivate = Some sampleChain\<rparr>"

text \<open>The same node with a signing manager that rejects every signature.\<close>

definition rejectingEnv :: Env where
  "rejectingEnv = sampleEnv\<lparr>VerifyRecoveredSig := (\<lambda>h r m sg. False)\<rparr>"

definition clsig2 :: CChainLockSig where
  "clsig2 = \<lparr>nHeight = 2, blockHash = 12, sig = 1\<rparr>"

definition clsig1 :: CChainLockSig where
  "clsig1 = \<lparr>nHeight = 1, blockHash = 11, sig = 2\<rparr>"

definition clsigM1 :: CChainLockSig where
  "clsigM1 = \<lparr>nHeight = - 1, blockHash = 20, sig = 3\<rparr>"

definition clsigM5 :: CChainLockSig where
  "clsigM5 = \<lparr>nHeight = - 5, blockHash = 30, sig = 4\<rparr>"

text \<open>The handler after it accepted \<open>clsig2\<close> from a fresh start.\<close>

definition lockedAt2 :: CChainLocksHandler where
  "lockedAt2 = (initial_handler True True)
     \<lparr>bestChainLockHash := 13,
      bestChainLock := clsig2,
      bestChainLockWithKnownBlock := clsig2,
      bestChainLockBlockIndex := Some sampleChain,
      seenChainLocks := [(13, 1000)]\<rparr>"

text \<open>The handler after it accepted \<open>clsigM1\<close> from a fresh start.\<close>

definition lockedAtM1 :: CChainLocksHandler where
  "lockedAtM1 = (initial_handler True True)
     \<lparr>bestChainLockHash := 21,
      bestChainLock := clsigM1,
      seenChainLocks := [(21, 1000)]\<rparr>"

text \<open>\<open>lockedAt2\<close> after a stale CLSIG with hash 12 went through the dedup stage.\<close>

definition lockedAt2_seen12 :: CChainLocksHandler where
  "lockedAt2_seen12 = lockedAt2\<lparr>seenChainLocks := [(13, 1000), (12, 1000)]\<rparr>"

definition sampleTx :: CTransaction where
  "sampleTx = \<lparr>GetHash = 77, IsCoinBase = False, vin_empty = False\<rparr>"

text \<open>
  A fresh handler with the feature flags on that has just seen transaction 77 in the
  tip block 12.
\<close>

definition unsafeTip :: CChainLocksHandler where
  "unsafeTip = (initial_handler True True)
     \<lparr>blockTxs := [(12, [77])], txFirstSeenTime := [(77, 1000)]\<rparr>"

section \<open>Auxiliary facts\<close>

lemmas sample_defs =
  sampleChain_def sampleHasher_def sampleEnv_def rejectingEnv_def
  clsig2_def clsig1_def clsigM1_def clsigM5_def
  lockedAt2_def lockedAtM1_def lockedAt2_seen12_def sampleTx_def unsafeTip_def
  initial_handler_def CChainLockSig_default_def

lemmas result_splits = if_splits sum.splits option.splits bool.splits

lemma sless_not_sym: "(a::'a::len word) <s b \<Longrightarrow> \<not> b <s a \<and> a \<noteq> b"
  by (auto simp: word_sless_alt)

subsection \<open>What one call of the ingest pipeline does\<close>

lemma PNCL_seen:
  "map_of (seenChainLocks s) hash \<noteq> None
     \<Longrightarrow> ProcessNewChainLock hs e s from clsig hash = Inr (s, [])"
  by (simp add: ProcessNewChainLock_def)

lemma PNCL_inserts:
  "map_of (seenChainLocks s) hash = None
     \<Longrightarrow> ProcessNewChainLock hs e s from clsig hash = Inr (s', fx)
     \<Longrightarrow> seenChainLocks s' = seenChainLocks s @ [(hash, GetTimeMillis e)]"
  by (auto simp: ProcessNewChainLock_def Let_def split: result_splits)

lemma PNCL_inserted_time:
  assumes "map_of (seenChainLocks s) h = None"
    and "ProcessNewChainLock hs e s from clsig h = Inr (s1, fx1)"
  shows "map_of (seenChainLocks s1) h = Some (GetTimeMillis e)"
  using PNCL_inserts[OF assms] assms(1) by (simp add: map_add_def)

lemma PNCL_seen_mono:
  "ProcessNewChainLock hs e s from clsig hash = Inr (s', fx)
     \<Longrightarrow> map_of (seenChainLocks s) k \<noteq> None
     \<Longrightarrow> map_of (seenChainLocks s') k \<noteq> None"
  by (cases "map_of (seenChainLocks s) hash = None")
     (auto simp: PNCL_seen dest!: PNCL_inserts)

text \<open>Either the registry is untouched and nothing is relayed, or the call committed.\<close>

lemma PNCL_best:
  "ProcessNewChainLock hs e s from clsig hash = Inr (s', fx) \<Longrightarrow>
     (bestChainLock s' = bestChainLock s \<and> bestChainLockHash s' = bestChainLockHash s
        \<and> bestChainLockWithKnownBlock s' = bestChainLockWithKnownBlock s
        \<and> bestChainLockBlockIndex s' = bestChainLockBlockIndex s
        \<and> RelayInv hash \<notin> set fx)
   \<or> (bestChainLock s' = clsig \<and> bestChainLockHash s' = hash \<and> RelayInv hash \<in> set fx
        \<and> map_of (seenChainLocks s) hash = None
        \<and> \<not> (nHeight (bestChainLock s) \<noteq> - 1
              \<and> nHeight clsig \<le>s nHeight (bestChainLock s)))"
  by (auto simp: ProcessNewChainLock_def Let_def split: result_splits)

lemma PNCL_verify_once:
  "ProcessNewChainLock hs e s from clsig hash = Inr (s', fx)
     \<Longrightarrow> length (filter isVerifyCall fx) \<le> 1"
  by (auto simp: ProcessNewChainLock_def Let_def split: result_splits)



subsection \<open>Operations that leave the best lock alone\<close>

lemma Cleanup_best: "Cleanup e s = Inr s' \<Longrightarrow> sameBest s s'"
  by (auto simp: Cleanup_def sameBest_def Let_def split: result_splits prod.splits)

lemma TrySignChainTip_best: "TrySignChainTip hs e s = Inr (s', fx) \<Longrightarrow> sameBest s s'"
  by (auto simp: TrySignChainTip_def sameBest_def Let_def dest!: Cleanup_best
      split: result_splits)

lemma EnforceBestChainLock_best: "EnforceBestChainLock e s = Inr (s', fx) \<Longrightarrow> sameBest s s'"
  by (auto simp: EnforceBestChainLock_def sameBest_def Let_def split: result_splits)

lemma GetBlockTxs_best: "GetBlockTxs e s h = Inr (s', r) \<Longrightarrow> sameBest s s'"
  by (auto simp: GetBlockTxs_def sameBest_def Let_def split: result_splits)

lemma SyncTransaction_best: "sameBest s (SyncTransaction e s tx p)"
  by (auto simp: SyncTransaction_def sameBest_def Let_def split: result_splits)

lemma AcceptedBlockHeader_best: "sameBest s (AcceptedBlockHeader s p)"
  by (auto simp: AcceptedBlockHeader_def sameBest_def)

lemma UpdatedBlockTip_best: "sameBest s (fst (UpdatedBlockTip s))"
  by (auto simp: UpdatedBlockTip_def sameBest_def)

lemma HandleNewRecoveredSig_best:
  "HandleNewRecoveredSig hs e s r = Inr (s', fx) \<Longrightarrow>
     sameBest s s'
   \<or> (bestChainLockHash s' = SerializeHash hs (bestChainLock s')
       \<and> \<not> (nHeight (bestChainLock s) \<noteq> - 1
             \<and> nHeight (bestChainLock s') \<le>s nHeight (bestChainLock s)))"
  by (auto simp: HandleNewRecoveredSig_def sameBest_def Let_def dest!: PNCL_best
      split: if_splits)

lemma ProcessMessage_best:
  "ProcessMessage hs e s p c clsig = Inr (s', fx) \<Longrightarrow>
     sameBest s s'
   \<or> (bestChainLockHash s' = SerializeHash hs (bestChainLock s')
       \<and> \<not> (nHeight (bestChainLock s) \<noteq> - 1
             \<and> nHeight (bestChainLock s') \<le>s nHeight (bestChainLock s)))"
  by (auto simp: ProcessMessage_def sameBest_def dest!: PNCL_best split: if_splits)




subsection \<open>The stored hash\<close>

lemma CheckActiveState_sentinel:
  "bestChainLockHash (CheckActiveState s) = 0
   \<and> bestChainLock (CheckActiveState s) = CChainLockSig_default"
  by (simp add: CheckActiveState_def)

lemma sameBest_hashInv: "sameBest s s' \<Longrightarrow> hashInv hs s \<Longrightarrow> hashInv hs s'"
  by (auto simp: sameBest_def hashInv_def)

lemma ScheduledCheckAndEnforce_sentinel:
  "ScheduledCheckAndEnforce e s = Inr (s', fx) \<Longrightarrow> hashInv hs s'"
  using CheckActiveState_sentinel[of s]
  by (auto simp: ScheduledCheckAndEnforce_def hashInv_def sameBest_def
      dest!: EnforceBestChainLock_best)

lemma ScheduledTick_sentinel:
  "ScheduledTick hs e s = Inr (s', fx) \<Longrightarrow> hashInv hs s'"
  using CheckActiveState_sentinel[of s]
  by (auto simp: ScheduledTick_def hashInv_def sameBest_def split: sum.splits
      dest!: EnforceBestChainLock_best TrySignChainTip_best)

lemma ScheduledTipTask_sentinel:
  "ScheduledTipTask hs e s = Inr (s', fx) \<Longrightarrow> hashInv hs s'"
  by (auto simp: ScheduledTipTask_def hashInv_def split: sum.splits
      dest!: ScheduledTick_sentinel)

lemma step_hashInv:
  assumes "hashInv hs s" and "canonicalHash hs x" and "step hs s x = Inr (s', fx)"
  shows "hashInv hs s'"
proof (cases x)
  case (OpProcessNewChainLock e f c h)
  with assms PNCL_best[of hs e s f c h s' fx] show ?thesis by (auto simp: hashInv_def)
next
  case (OpProcessMessage e p c clsig)
  with assms ProcessMessage_best[of hs e s p c clsig s' fx] show ?thesis
    by (auto simp: hashInv_def sameBest_def)
next
  case (OpHandleNewRecoveredSig e r)
  with assms HandleNewRecoveredSig_best[of hs e s r s' fx] show ?thesis
    by (auto simp: hashInv_def sameBest_def)
next
  case (OpAcceptedBlockHeader p)
  with assms sameBest_hashInv[OF AcceptedBlockHeader_best[of s p]] show ?thesis by auto
next
  case OpUpdatedBlockTip
  with assms sameBest_hashInv[OF UpdatedBlockTip_best[of s]] show ?thesis
    by (cases "UpdatedBlockTip s") auto
next
  case OpCheckActiveState
  with assms CheckActiveState_sentinel[of s] show ?thesis by (auto simp: hashInv_def)
next
  case (OpEnforceBestChainLock e)
  with assms show ?thesis by (auto dest!: EnforceBestChainLock_best intro: sameBest_hashInv)
next
  case (OpTrySignChainTip e)
  with assms show ?thesis by (auto dest!: TrySignChainTip_best intro: sameBest_hashInv)
next
  case (OpSyncTransaction e tx p)
  with assms sameBest_hashInv[OF SyncTransaction_best[of s e tx p]] show ?thesis by auto
next
  case (OpGetBlockTxs e h)
  with assms show ?thesis
    by (auto split: sum.splits dest!: GetBlockTxs_best intro: sameBest_hashInv)
next
  case (OpCleanup e)
  with assms show ?thesis
    by (auto split: sum.splits dest!: Cleanup_best intro: sameBest_hashInv)
next
  case (OpScheduledCheckAndEnforce e)
  with assms show ?thesis by (auto dest: ScheduledCheckAndEnforce_sentinel)
next
  case (OpScheduledTick e)
  with assms show ?thesis by (auto dest: ScheduledTick_sentinel)
next
  case (OpScheduledTipTask e)
  with assms show ?thesis by (auto dest: ScheduledTipTask_sentinel)
qed

lemma runOps_hashInv:
  "hashInv hs s \<Longrightarrow> \<forall>x\<in>set ops. canonicalHash hs x \<Longrightarrow> runOps hs s ops = Inr s'
     \<Longrightarrow> hashInv hs s'"
proof (induction ops arbitrary: s)
  case Nil
  then show ?case by simp
next
  case (Cons x xs)
  from Cons.prems(3) obtain s1 fx
    where st: "step hs s x = Inr (s1, fx)" and rest: "runOps hs s1 xs = Inr s'"
    by (auto split: sum.splits)
  from Cons.prems(2) have "canonicalHash hs x" by simp
  from step_hashInv[OF Cons.prems(1) this st] have "hashInv hs s1" .
  from Cons.IH[OF this _ rest] Cons.prems(2) show ?case by simp
qed

text \<open>
  The stored hash of a fresh handler is canonical exactly when the hash function maps
  the default CLSIG to the null hash.
\<close>

lemma initial_hash_canonical_iff:
  "bestChainLockHash (initial_handler spork enforced)
     = SerializeHash hs (bestChainLock (initial_handler spork enforced))
   \<longleftrightarrow> SerializeHash hs CChainLockSig_default = 0"
  by (auto simp: initial_handler_def)

subsection \<open>Counting verifier calls\<close>

lemma verifyCount_Cons:
  "verifyCount h ((h', fx) # tr)
     = (if h' = h then length (filter isVerifyCall fx) else 0) + verifyCount h tr"
  by (simp add: verifyCount_def)

lemma verifyCount_seen:
  "map_of (seenChainLocks s) h \<noteq> None \<Longrightarrow> verifyCount h (pnclTrace hs s calls) = 0"
proof (induction calls arbitrary: s)
  case Nil
  then show ?case by (simp add: verifyCount_def)
next
  case (Cons c calls)
  obtain e f clsig h' where c: "c = (e, f, clsig, h')" by (cases c) auto
  show ?case
  proof (cases "ProcessNewChainLock hs e s f clsig h'")
    case (Inl err)
    with c show ?thesis by (simp add: verifyCount_def)
  next
    case (Inr r)
    obtain s' fx where r: "r = (s', fx)" by (cases r) auto
    from PNCL_seen_mono[of hs e s f clsig h' s' fx h] Inr r Cons.prems
    have seen': "map_of (seenChainLocks s') h \<noteq> None" by simp
    have "h' = h \<Longrightarrow> fx = []"
      using PNCL_seen[of s h hs e f clsig] Cons.prems Inr r by simp
    with Cons.IH[OF seen'] c Inr r show ?thesis by (simp add: verifyCount_Cons)
  qed
qed

lemma verifyCount_le_1: "verifyCount h (pnclTrace hs s calls) \<le> 1"
proof (induction calls arbitrary: s)
  case Nil
  then show ?case by (simp add: verifyCount_def)
next
  case (Cons c calls)
  obtain e f clsig h' where c: "c = (e, f, clsig, h')" by (cases c) auto
  show ?case
  proof (cases "ProcessNewChainLock hs e s f clsig h'")
    case (Inl err)
    with c show ?thesis by (simp add: verifyCount_def)
  next
    case (Inr r)
    obtain s' fx where r: "r = (s', fx)" by (cases r) auto
    show ?thesis
    proof (cases "h' = h")
      case False
      with Cons.IH[of s'] c Inr r show ?thesis by (simp add: verifyCount_Cons)
    next
      case True
      have ins: "map_of (seenChainLocks s') h \<noteq> None"
      proof (cases "map_of (seenChainLocks s) h = None")
        case True
        with PNCL_inserts[of s h hs e f clsig s' fx] Inr r \<open>h' = h\<close> show ?thesis by simp
      next
        case False
        with PNCL_seen_mono[of hs e s f clsig h' s' fx h] Inr r show ?thesis by simp
      qed
      from PNCL_verify_once[of hs e s f clsig h' s' fx] Inr r
      have "length (filter isVerifyCall fx) \<le> 1" by simp
      with verifyCount_seen[OF ins, of hs calls] c Inr r True show ?thesis
        by (simp add: verifyCount_Cons)
    qed
  qed
qed

subsection \<open>Heights without ancestor\<close>

text \<open>No block has an ancestor at a negative height.\<close>

lemma GetAncestor_negative: "h <s 0 \<Longrightarrow> GetAncestor p h = None"
  by (simp add: GetAncestor_def)

subsection \<open>The age of a transaction without overflow\<close>

lemma IsTxSafeForMining_no_overflow:
  assumes "isSporkActive s" and "map_of (txFirstSeenTime s) txid = Some t"
    and "- (2 ^ 63) \<le> sint (GetAdjustedTime e) - sint t"
    and "sint (GetAdjustedTime e) - sint t < 2 ^ 63"
  shows "IsTxSafeForMining e s txid \<longleftrightarrow> 600 \<le> sint (GetAdjustedTime e) - sint t"
proof -
  have "sint (GetAdjustedTime e - t) = sint (GetAdjustedTime e) - sint t"
    using assms(3,4) by (simp add: sint_word_ariths signed_take_bit_int_eq_self)
  with assms(1,2) show ?thesis
    by (auto simp: IsTxSafeForMining_def Let_def WAIT_FOR_ISLOCK_TIMEOUT_def word_sless_alt)
qed

subsection \<open>The signer and the tracker\<close>

text \<open>
  While no cleanup is due, what \<^verbatim>\<open>TrySignChainTip\<close> asks of the signing manager does
  not depend on the contents of \<^verbatim>\<open>blockTxs\<close> and \<^verbatim>\<open>txFirstSeenTime\<close>.
\<close>

lemma TrySignChainTip_ignores_tracker:
  assumes "GetTimeMillis e - lastCleanupTime s <s CLEANUP_INTERVAL"
  shows "map_sum id snd (TrySignChainTip hs e (s\<lparr>blockTxs := b, txFirstSeenTime := m\<rparr>))
           = map_sum id snd (TrySignChainTip hs e s)"
  using assms
  by (auto simp: TrySignChainTip_def Cleanup_def InternalHasConflictingChainLock_def Let_def
      split: option.splits bool.splits)

section \<open>The claims\<close>

subsection \<open>C1: the signer and the block-tx tracker\<close>

text \<open>
  C1 says that \<^verbatim>\<open>TrySignChainTip\<close> asks \<^verbatim>\<open>IsTxSafeForMining\<close> about every tracked
  txid of the tip's block before it proposes the tip, and proposes nothing when one of
  them is unsafe. The source function never reads the tracker. Here the handler saw
  transaction 77 in the tip block 12 at time 1000 and the signer runs at time 1000: the
  tracker holds 77 for block 12, 77 is not safe for mining, and the signer still records
  height 2 and calls \<^verbatim>\<open>AsyncSignIfMember\<close> for block 12.
\<close>

theorem TrySignChainTip_signs_unsafe_tip:
  "SyncTransaction sampleEnv (initial_handler True True) sampleTx (Some sampleChain) = unsafeTip
   \<and> GetBlockTxs sampleEnv unsafeTip 12 = Inr (unsafeTip, Some [77])
   \<and> IsTxSafeForMining sampleEnv unsafeTip 77 = False
   \<and> TrySignChainTip sampleHasher sampleEnv unsafeTip
       = Inr (unsafeTip\<lparr>lastSignedHeight := 2,
                        lastSignedRequestId := 1002,
                        lastSignedMsgHash := 12\<rparr>,
              [AsyncSignIfMember 1002 12])"
proof -
  have a: "SyncTransaction sampleEnv (initial_handler True True) sampleTx (Some sampleChain)
             = unsafeTip"
    by (simp add: SyncTransaction_def emplace_def set_emplace_def Let_def sample_defs)
  have b: "GetBlockTxs sampleEnv unsafeTip 12 = Inr (unsafeTip, Some [77])"
    by (simp add: GetBlockTxs_def sample_defs)
  have c: "IsTxSafeForMining sampleEnv unsafeTip 77 = False"
    by (simp add: IsTxSafeForMining_def WAIT_FOR_ISLOCK_TIMEOUT_def word_sless_alt sample_defs)
  have d: "Cleanup sampleEnv unsafeTip = Inr unsafeTip"
    by (simp add: Cleanup_def CLEANUP_INTERVAL_def word_sless_alt sample_defs)
  have e: "TrySignChainTip sampleHasher sampleEnv unsafeTip
       = Inr (unsafeTip\<lparr>lastSignedHeight := 2,
                        lastSignedRequestId := 1002,
                        lastSignedMsgHash := 12\<rparr>,
              [AsyncSignIfMember 1002 12])"
    unfolding TrySignChainTip_def d
    by (simp add: InternalHasConflictingChainLock_def word_sle_eq sample_defs)
  from a b c e show ?thesis by simp
qed

subsection \<open>C2: no lower height after an accepted CLSIG\<close>




subsection \<open>C3: the best height over a sequence of calls\<close>




subsection \<open>C4: the stored hash of the best lock\<close>

text \<open>
  C4 as stated fails in the initial state and after every \<^verbatim>\<open>CheckActiveState\<close>: there
  \<^verbatim>\<open>bestChainLockHash\<close> is the null hash and \<^verbatim>\<open>bestChainLock\<close> the default CLSIG, so
  the claim holds in these states only for a hash function that maps the default CLSIG to
  the null hash. With the sample hash function, which maps it to 1, the stored hash
  differs from the hash of the stored lock in a fresh handler and after a reset.
\<close>

theorem stored_hash_not_canonical_counterexample:
  "bestChainLockHash (initial_handler True True) = 0
   \<and> SerializeHash sampleHasher (bestChainLock (initial_handler True True)) = 1
   \<and> bestChainLockHash (CheckActiveState lockedAt2) = 0
   \<and> SerializeHash sampleHasher (bestChainLock (CheckActiveState lockedAt2)) = 1
   \<and> bestChainLockHash (initial_handler True True)
       \<noteq> SerializeHash sampleHasher (bestChainLock (initial_handler True True))
   \<and> bestChainLockHash (CheckActiveState lockedAt2)
       \<noteq> SerializeHash sampleHasher (bestChainLock (CheckActiveState lockedAt2))"
  by (simp add: CheckActiveState_def sample_defs)

text \<open>
  C4, amended: at every point reachable from the initial state by handler operations,
  where a direct call of \<^verbatim>\<open>ProcessNewChainLock\<close> is given the canonical hash of its
  CLSIG (as \<^verbatim>\<open>ProcessMessage\<close> and \<^verbatim>\<open>HandleNewRecoveredSig\<close> give it),
  \<^verbatim>\<open>bestChainLockHash\<close> is the canonical hash of \<^verbatim>\<open>bestChainLock\<close>, or it is the null
  hash while \<^verbatim>\<open>bestChainLock\<close> is the default CLSIG of height -1, which is the state
  the constructor and \<^verbatim>\<open>CheckActiveState\<close> leave.
\<close>

theorem stored_hash_canonical_or_sentinel:
  assumes "\<forall>x\<in>set ops. canonicalHash hs x"
    and "runOps hs (initial_handler spork enforced) ops = Inr s"
  shows "bestChainLockHash s = SerializeHash hs (bestChainLock s)
         \<or> (bestChainLockHash s = 0 \<and> bestChainLock s = CChainLockSig_default)"
proof -
  have "hashInv hs (initial_handler spork enforced)"
    by (simp add: hashInv_def initial_handler_def)
  from runOps_hashInv[OF this assms] show ?thesis by (simp add: hashInv_def)
qed

text \<open>
  The amended C4 on a run: a peer's CLSIG for height 2 is accepted and the header of its
  block arrives; the stored hash 13 is the hash of the stored lock.
\<close>

theorem stored_hash_canonical_or_sentinel_witness:
  "canonicalHash sampleHasher (OpProcessMessage sampleEnv 7 ''clsig'' clsig2)
   \<and> canonicalHash sampleHasher (OpAcceptedBlockHeader sampleChain)
   \<and> runOps sampleHasher (initial_handler True True)
        [OpProcessMessage sampleEnv 7 ''clsig'' clsig2, OpAcceptedBlockHeader sampleChain]
       = Inr lockedAt2
   \<and> bestChainLockHash lockedAt2 = 13
   \<and> bestChainLockHash lockedAt2 = SerializeHash sampleHasher (bestChainLock lockedAt2)"
proof -
  have a: "\<forall>x\<in>set [OpProcessMessage sampleEnv 7 ''clsig'' clsig2,
              OpAcceptedBlockHeader sampleChain]. canonicalHash sampleHasher x"
    by simp
  have b: "runOps sampleHasher (initial_handler True True)
        [OpProcessMessage sampleEnv 7 ''clsig'' clsig2, OpAcceptedBlockHeader sampleChain]
       = Inr lockedAt2"
    by (simp add: ProcessMessage_def ProcessNewChainLock_def AcceptedBlockHeader_def
        InternalHasConflictingChainLock_def sample_defs)
  have c: "bestChainLockHash lockedAt2 = 13"
    by (simp add: sample_defs)
  have d: "bestChainLock lockedAt2 \<noteq> CChainLockSig_default"
    by (simp add: sample_defs)
  from stored_hash_canonical_or_sentinel[OF a b] d
  have e: "bestChainLockHash lockedAt2 = SerializeHash sampleHasher (bestChainLock lockedAt2)"
    by simp
  have a1: "canonicalHash sampleHasher (OpProcessMessage sampleEnv 7 ''clsig'' clsig2)"
    and a2: "canonicalHash sampleHasher (OpAcceptedBlockHeader sampleChain)"
    by simp_all
  show ?thesis by (rule conjI[OF a1 conjI[OF a2 conjI[OF b conjI[OF c e]]]])
qed

subsection \<open>C5: dedup by hash\<close>

text \<open>
  C5: a call of \<^verbatim>\<open>ProcessNewChainLock\<close> with a hash that is not in the seen-set puts it
  there with the current time; a call with a hash that is in the seen-set returns at
  once, with the handler unchanged and no effect at all (no verifier call, no relay); and
  over any sequence of \<^verbatim>\<open>ProcessNewChainLock\<close> calls, the calls that carry one hash
  invoke the verifier at most once.
\<close>

theorem ProcessNewChainLock_dedup:
  "(\<not> AlreadyHave s h \<and> ProcessNewChainLock hs e s from clsig h = Inr (s1, fx1)
       \<longrightarrow> map_of (seenChainLocks s1) h = Some (GetTimeMillis e) \<and> AlreadyHave s1 h)
   \<and> (AlreadyHave s h \<longrightarrow> ProcessNewChainLock hs e s from clsig h = Inr (s, []))
   \<and> verifyCount h (pnclTrace hs s calls) \<le> 1"
  using verifyCount_le_1[of h hs s calls]
  by (auto simp: AlreadyHave_def PNCL_seen PNCL_inserted_time)

text \<open>
  C5 at work: the first call with hash 13 records it, a second call with the same hash
  (from another peer) changes nothing, and the two calls together verify once.
\<close>

theorem ProcessNewChainLock_dedup_witness:
  "\<not> AlreadyHave (initial_handler True True) 13
   \<and> ProcessNewChainLock sampleHasher sampleEnv (initial_handler True True) 7 clsig2 13
       = Inr (lockedAt2,
              [VerifyRecoveredSigCall 2 1002 12 1, RelayInv 13, ScheduleCheckAndEnforce])
   \<and> map_of (seenChainLocks lockedAt2) 13 = Some (GetTimeMillis sampleEnv)
   \<and> AlreadyHave lockedAt2 13
   \<and> ProcessNewChainLock sampleHasher sampleEnv lockedAt2 8 clsig2 13 = Inr (lockedAt2, [])
   \<and> verifyCount 13 (pnclTrace sampleHasher (initial_handler True True)
                       [(sampleEnv, 7, clsig2, 13), (sampleEnv, 8, clsig2, 13)]) \<le> 1"
proof -
  have a: "\<not> AlreadyHave (initial_handler True True) 13"
    by (simp add: AlreadyHave_def sample_defs)
  have b: "ProcessNewChainLock sampleHasher sampleEnv (initial_handler True True) 7 clsig2 13
       = Inr (lockedAt2,
              [VerifyRecoveredSigCall 2 1002 12 1, RelayInv 13, ScheduleCheckAndEnforce])"
    by (simp add: ProcessNewChainLock_def InternalHasConflictingChainLock_def sample_defs)
  note first = ProcessNewChainLock_dedup[of "initial_handler True True" 13 sampleHasher
      sampleEnv 7 clsig2 lockedAt2
      "[VerifyRecoveredSigCall 2 1002 12 1, RelayInv 13, ScheduleCheckAndEnforce]"
      "[(sampleEnv, 7, clsig2, 13), (sampleEnv, 8, clsig2, 13)]"]
  from first a b
  have c: "map_of (seenChainLocks lockedAt2) 13 = Some (GetTimeMillis sampleEnv)"
    and d: "AlreadyHave lockedAt2 13"
    and f: "verifyCount 13 (pnclTrace sampleHasher (initial_handler True True)
                       [(sampleEnv, 7, clsig2, 13), (sampleEnv, 8, clsig2, 13)]) \<le> 1"
    by blast+
  from ProcessNewChainLock_dedup[of lockedAt2 13 sampleHasher sampleEnv 8 clsig2] d
  have g: "ProcessNewChainLock sampleHasher sampleEnv lockedAt2 8 clsig2 13
             = Inr (lockedAt2, [])"
    by blast
  show ?thesis by (rule conjI[OF a conjI[OF b conjI[OF c conjI[OF d conjI[OF g f]]]]])
qed

subsection \<open>C6: conflict safety\<close>

text \<open>
  C6: in any handler state, for every height \<open>H\<close> and block hashes \<open>A \<noteq> B\<close>, if
  \<^verbatim>\<open>HasChainLock(H, A)\<close> returns true then \<^verbatim>\<open>HasConflictingChainLock(H, B)\<close> returns
  true.
\<close>

theorem HasChainLock_conflict_safety:
  "HasChainLock s H A \<Longrightarrow> A \<noteq> B \<Longrightarrow> HasConflictingChainLock s H B = Inr True"
  by (auto simp: HasChainLock_def HasConflictingChainLock_def InternalHasChainLock_def
      InternalHasConflictingChainLock_def split: if_splits option.splits)

text \<open>C6 with the lock on block 12 at height 2, asked about its ancestor at height 1.\<close>

theorem HasChainLock_conflict_safety_witness:
  "HasChainLock lockedAt2 1 11 \<and> (11 :: uint256) \<noteq> 99
   \<and> HasConflictingChainLock lockedAt2 1 99 = Inr True"
proof -
  have a: "HasChainLock lockedAt2 1 11"
    by (simp add: HasChainLock_def InternalHasChainLock_def GetAncestor_def
        word_sless_alt sample_defs)
  have b: "(11 :: uint256) \<noteq> 99" by simp
  have c: "HasConflictingChainLock lockedAt2 1 99 = Inr True"
    by (rule HasChainLock_conflict_safety[OF a b])
  show ?thesis by (rule conjI[OF a conjI[OF b c]])
qed

subsection \<open>C7: the two lock predicates\<close>

text \<open>
  C7 as stated, for every height, fails below the lock height where the locked block has
  no ancestor at the asked height. With the lock on block 12 at height 2 and the height
  -1, \<^verbatim>\<open>GetAncestor\<close> returns null: \<^verbatim>\<open>InternalHasChainLock\<close> returns false, and
  \<^verbatim>\<open>InternalHasConflictingChainLock\<close> (also through the public
  \<^verbatim>\<open>HasConflictingChainLock\<close>) returns neither the negated equality nor any other
  value, it stops at \<^verbatim>\<open>assert(pAncestor)\<close>.
\<close>

theorem conflicting_query_aborts_counterexample:
  "isEnforced lockedAt2
   \<and> bestChainLockBlockIndex lockedAt2 = Some sampleChain
   \<and> - 1 <s bi_nHeight sampleChain
   \<and> GetAncestor sampleChain (- 1) = None
   \<and> InternalHasChainLock lockedAt2 (- 1) 99 = False
   \<and> InternalHasConflictingChainLock lockedAt2 (- 1) 99 = Inl AssertionFailed
   \<and> InternalHasConflictingChainLock lockedAt2 (- 1) 99 \<noteq> Inr True
   \<and> InternalHasConflictingChainLock lockedAt2 (- 1) 99 \<noteq> Inr False
   \<and> HasConflictingChainLock lockedAt2 (- 1) 99 = Inl AssertionFailed"
  by (simp add: HasConflictingChainLock_def InternalHasChainLock_def
      InternalHasConflictingChainLock_def GetAncestor_def word_sless_alt sample_defs)

text \<open>
  C7, amended: \<^verbatim>\<open>InternalHasChainLock(h, blockHash)\<close> is false when enforcement is off
  or no locked block is known; false when \<open>h\<close> is above the locked block's height; the
  equality of \<open>blockHash\<close> with the locked block's hash when \<open>h\<close> is that height; below
  it, the equality of \<open>blockHash\<close> with the hash of the locked block's ancestor at height
  \<open>h\<close> when that ancestor exists, and false when it does not.
  \<^verbatim>\<open>InternalHasConflictingChainLock\<close> returns false in the first two cases and the
  negated equality in the next two; where the ancestor does not exist it returns nothing
  and fails \<^verbatim>\<open>assert(pAncestor)\<close>.
\<close>

theorem InternalHasChainLock_cases:
  "(\<not> isEnforced s \<or> bestChainLockBlockIndex s = None \<longrightarrow>
      InternalHasChainLock s h bh = False
      \<and> InternalHasConflictingChainLock s h bh = Inr False)
   \<and> (isEnforced s \<and> bestChainLockBlockIndex s = Some p \<longrightarrow>
        (bi_nHeight p <s h \<longrightarrow>
           InternalHasChainLock s h bh = False
           \<and> InternalHasConflictingChainLock s h bh = Inr False)
      \<and> (h = bi_nHeight p \<longrightarrow>
           InternalHasChainLock s h bh = (bh = GetBlockHash p)
           \<and> InternalHasConflictingChainLock s h bh = Inr (bh \<noteq> GetBlockHash p))
      \<and> (h <s bi_nHeight p \<and> GetAncestor p h = Some a \<longrightarrow>
           InternalHasChainLock s h bh = (bh = GetBlockHash a)
           \<and> InternalHasConflictingChainLock s h bh = Inr (bh \<noteq> GetBlockHash a))
      \<and> (h <s bi_nHeight p \<and> GetAncestor p h = None \<longrightarrow>
           InternalHasChainLock s h bh = False
           \<and> InternalHasConflictingChainLock s h bh = Inl AssertionFailed))"
  by (auto simp: InternalHasChainLock_def InternalHasConflictingChainLock_def
      dest: sless_not_sym)

text \<open>
  The amended C7 on five inputs: enforcement off; the lock on block 12 at height 2 asked
  about height 3, about height 2, about height 1, where the ancestor is block 11, and
  about height -1, where there is no ancestor.
\<close>

theorem InternalHasChainLock_cases_witness:
  "\<not> isEnforced (initial_handler True False)
   \<and> InternalHasChainLock (initial_handler True False) 2 12 = False
   \<and> InternalHasConflictingChainLock (initial_handler True False) 2 12 = Inr False
   \<and> isEnforced lockedAt2 \<and> bestChainLockBlockIndex lockedAt2 = Some sampleChain
   \<and> bi_nHeight sampleChain <s 3
   \<and> InternalHasChainLock lockedAt2 3 12 = False
   \<and> InternalHasConflictingChainLock lockedAt2 3 12 = Inr False
   \<and> InternalHasChainLock lockedAt2 2 12 = True
   \<and> InternalHasConflictingChainLock lockedAt2 2 12 = Inr False
   \<and> 1 <s bi_nHeight sampleChain
   \<and> GetAncestor sampleChain 1 = Some (CBlockIndex 11 1 (Some (CBlockIndex 10 0 None)))
   \<and> InternalHasChainLock lockedAt2 1 99 = False
   \<and> InternalHasConflictingChainLock lockedAt2 1 99 = Inr True
   \<and> - 2 <s bi_nHeight sampleChain
   \<and> GetAncestor sampleChain (- 2) = None
   \<and> InternalHasChainLock lockedAt2 (- 2) 12 = False
   \<and> InternalHasConflictingChainLock lockedAt2 (- 2) 12 = Inl AssertionFailed"
proof -
  have a: "\<not> isEnforced (initial_handler True False)"
    by (simp add: sample_defs)
  have b: "isEnforced lockedAt2" "bestChainLockBlockIndex lockedAt2 = Some sampleChain"
    by (simp_all add: sample_defs)
  have c: "bi_nHeight sampleChain <s 3" "1 <s bi_nHeight sampleChain"
    "2 = bi_nHeight sampleChain" "GetBlockHash sampleChain = 12"
    "- 2 <s bi_nHeight sampleChain"
    by (simp_all add: word_sless_alt sample_defs)
  have d: "GetAncestor sampleChain 1 = Some (CBlockIndex 11 1 (Some (CBlockIndex 10 0 None)))"
    by (simp add: GetAncestor_def word_sless_alt sample_defs)
  have n: "GetAncestor sampleChain (- 2) = None"
    by (simp add: GetAncestor_negative word_sless_alt)
  from InternalHasChainLock_cases[of "initial_handler True False" 2 12] a
  have r1: "InternalHasChainLock (initial_handler True False) 2 12 = False"
    "InternalHasConflictingChainLock (initial_handler True False) 2 12 = Inr False"
    by blast+
  from InternalHasChainLock_cases[of lockedAt2 3 12 sampleChain] b c(1)
  have r2: "InternalHasChainLock lockedAt2 3 12 = False"
    "InternalHasConflictingChainLock lockedAt2 3 12 = Inr False"
    by blast+
  from InternalHasChainLock_cases[of lockedAt2 2 12 sampleChain] b c(3,4)
  have r3: "InternalHasChainLock lockedAt2 2 12 = True"
    "InternalHasConflictingChainLock lockedAt2 2 12 = Inr False"
    by simp_all
  from InternalHasChainLock_cases[of lockedAt2 1 99 sampleChain
      "CBlockIndex 11 1 (Some (CBlockIndex 10 0 None))"] b c(2) d
  have r4: "InternalHasChainLock lockedAt2 1 99 = False"
    "InternalHasConflictingChainLock lockedAt2 1 99 = Inr True"
    by simp_all
  from InternalHasChainLock_cases[of lockedAt2 "- 2" 12 sampleChain] b c(5) n
  have r5: "InternalHasChainLock lockedAt2 (- 2) 12 = False"
    "InternalHasConflictingChainLock lockedAt2 (- 2) 12 = Inl AssertionFailed"
    by blast+
  from a b c(1,2,5) d n r1 r2 r3 r4 r5 show ?thesis by blast
qed

subsection \<open>C8: when a transaction is safe for mining\<close>

text \<open>
  C8: \<^verbatim>\<open>IsTxSafeForMining(txid)\<close> is true when the feature gate is off; otherwise it is
  true exactly when \<open>txid\<close> has an entry in \<^verbatim>\<open>txFirstSeenTime\<close> and the adjusted time
  minus that entry (the 64-bit difference the source computes) is at least
  \<^verbatim>\<open>WAIT_FOR_ISLOCK_TIMEOUT\<close>; a txid without entry is unsafe.
\<close>

theorem IsTxSafeForMining_spec:
  "IsTxSafeForMining e s txid =
     (if \<not> isSporkActive s then True
      else (\<exists>t. map_of (txFirstSeenTime s) txid = Some t
                \<and> WAIT_FOR_ISLOCK_TIMEOUT \<le>s GetAdjustedTime e - t))
   \<and> (isSporkActive s \<and> map_of (txFirstSeenTime s) txid = None
        \<longrightarrow> \<not> IsTxSafeForMining e s txid)"
  by (auto simp: IsTxSafeForMining_def Let_def WAIT_FOR_ISLOCK_TIMEOUT_def
      word_sless_alt word_sle_eq split: option.splits)

text \<open>
  C8 for transaction 77, first seen at time 1000: unsafe at time 1599, safe at time
  1600; transaction 78 was never seen and is unsafe.
\<close>

theorem IsTxSafeForMining_spec_witness:
  "isSporkActive unsafeTip
   \<and> map_of (txFirstSeenTime unsafeTip) 77 = Some 1000
   \<and> \<not> IsTxSafeForMining (sampleEnv\<lparr>GetAdjustedTime := 1599\<rparr>) unsafeTip 77
   \<and> IsTxSafeForMining (sampleEnv\<lparr>GetAdjustedTime := 1600\<rparr>) unsafeTip 77
   \<and> map_of (txFirstSeenTime unsafeTip) 78 = None
   \<and> \<not> IsTxSafeForMining sampleEnv unsafeTip 78"
proof -
  have a: "isSporkActive unsafeTip"
    and b: "map_of (txFirstSeenTime unsafeTip) 77 = Some 1000"
    and c: "map_of (txFirstSeenTime unsafeTip) 78 = None"
    by (simp_all add: sample_defs)
  have t1: "\<not> WAIT_FOR_ISLOCK_TIMEOUT \<le>s GetAdjustedTime (sampleEnv\<lparr>GetAdjustedTime := 1599\<rparr>) - 1000"
    and t2: "WAIT_FOR_ISLOCK_TIMEOUT \<le>s GetAdjustedTime (sampleEnv\<lparr>GetAdjustedTime := 1600\<rparr>) - 1000"
    by (simp_all add: WAIT_FOR_ISLOCK_TIMEOUT_def word_sle_eq sample_defs)
  from IsTxSafeForMining_spec[of "sampleEnv\<lparr>GetAdjustedTime := 1599\<rparr>" unsafeTip 77] a b t1
  have r1: "\<not> IsTxSafeForMining (sampleEnv\<lparr>GetAdjustedTime := 1599\<rparr>) unsafeTip 77"
    by simp
  from IsTxSafeForMining_spec[of "sampleEnv\<lparr>GetAdjustedTime := 1600\<rparr>" unsafeTip 77] a b t2
  have r2: "IsTxSafeForMining (sampleEnv\<lparr>GetAdjustedTime := 1600\<rparr>) unsafeTip 77"
    by simp
  from IsTxSafeForMining_spec[of sampleEnv unsafeTip 78] a c
  have r3: "\<not> IsTxSafeForMining sampleEnv unsafeTip 78"
    by blast
  from a b c r1 r2 r3 show ?thesis by blast
qed

subsection \<open>C9: a CLSIG whose signature does not verify\<close>

text \<open>
  C9: when a call of \<^verbatim>\<open>ProcessNewChainLock\<close> reaches the verifier (the hash is new and
  the height passes the filter) and \<^verbatim>\<open>VerifyRecoveredSig\<close> fails, the call returns with
  \<^verbatim>\<open>bestChainLock\<close>, \<^verbatim>\<open>bestChainLockHash\<close>, \<^verbatim>\<open>bestChainLockWithKnownBlock\<close> and
  \<^verbatim>\<open>bestChainLockBlockIndex\<close> unchanged and without relaying. It reports
  \<^verbatim>\<open>Misbehaving(from, 10)\<close> once when \<open>from\<close> is not -1, so for every peer id
  \<open>from \<ge> 0\<close>, and reports nothing for the local sender \<open>from = -1\<close>.
\<close>

theorem ProcessNewChainLock_invalid_signature:
  assumes "\<not> AlreadyHave s hash"
    and "\<not> (nHeight (bestChainLock s) \<noteq> - 1
            \<and> nHeight clsig \<le>s nHeight (bestChainLock s))"
    and "\<not> VerifyRecoveredSig e (nHeight clsig) (SerializeHash_requestId hs (nHeight clsig))
            (blockHash clsig) (sig clsig)"
  shows "\<exists>s' fx. ProcessNewChainLock hs e s from clsig hash = Inr (s', fx)
           \<and> bestChainLock s' = bestChainLock s
           \<and> bestChainLockHash s' = bestChainLockHash s
           \<and> bestChainLockWithKnownBlock s' = bestChainLockWithKnownBlock s
           \<and> bestChainLockBlockIndex s' = bestChainLockBlockIndex s
           \<and> filter isRelayInv fx = []
           \<and> filter isVerifyCall fx \<noteq> []
           \<and> filter isMisbehaving fx = (if from \<noteq> - 1 then [Misbehaving from 10] else [])
           \<and> (0 \<le>s from \<longrightarrow> filter isMisbehaving fx = [Misbehaving from 10])
           \<and> (from = - 1 \<longrightarrow> filter isMisbehaving fx = [])"
  using assms by (auto simp: ProcessNewChainLock_def AlreadyHave_def Let_def word_sle_eq)

text \<open>
  C9 with a verifier that rejects: the CLSIG for height 2 from peer 7 costs the peer 10
  points and leaves the fresh registry as it was.
\<close>

theorem ProcessNewChainLock_invalid_signature_witness:
  "\<not> AlreadyHave (initial_handler True True) 13
   \<and> \<not> (nHeight (bestChainLock (initial_handler True True)) \<noteq> - 1
         \<and> nHeight clsig2 \<le>s nHeight (bestChainLock (initial_handler True True)))
   \<and> \<not> VerifyRecoveredSig rejectingEnv (nHeight clsig2)
         (SerializeHash_requestId sampleHasher (nHeight clsig2)) (blockHash clsig2) (sig clsig2)
   \<and> (0 :: NodeId) \<le>s 7
   \<and> (\<exists>s' fx. ProcessNewChainLock sampleHasher rejectingEnv (initial_handler True True)
                  7 clsig2 13 = Inr (s', fx)
         \<and> bestChainLock s' = bestChainLock (initial_handler True True)
         \<and> bestChainLockHash s' = bestChainLockHash (initial_handler True True)
         \<and> filter isRelayInv fx = []
         \<and> filter isMisbehaving fx = [Misbehaving 7 10])"
proof -
  have a: "\<not> AlreadyHave (initial_handler True True) 13"
    by (simp add: AlreadyHave_def sample_defs)
  have b: "\<not> (nHeight (bestChainLock (initial_handler True True)) \<noteq> - 1
         \<and> nHeight clsig2 \<le>s nHeight (bestChainLock (initial_handler True True)))"
    by (simp add: sample_defs)
  have c: "\<not> VerifyRecoveredSig rejectingEnv (nHeight clsig2)
         (SerializeHash_requestId sampleHasher (nHeight clsig2)) (blockHash clsig2) (sig clsig2)"
    by (simp add: sample_defs)
  have d: "(0 :: NodeId) \<le>s 7"
    by (simp add: word_sle_eq)
  from ProcessNewChainLock_invalid_signature[OF a b c, of 7] d
  have e: "\<exists>s' fx. ProcessNewChainLock sampleHasher rejectingEnv (initial_handler True True)
                  7 clsig2 13 = Inr (s', fx)
         \<and> bestChainLock s' = bestChainLock (initial_handler True True)
         \<and> bestChainLockHash s' = bestChainLockHash (initial_handler True True)
         \<and> filter isRelayInv fx = []
         \<and> filter isMisbehaving fx = [Misbehaving 7 10]"
    by blast
  show ?thesis by (rule conjI[OF a conjI[OF b conjI[OF c conjI[OF d e]]]])
qed

subsection \<open>C10: asking for the CLSIG with the null hash\<close>

text \<open>
  C10: in the initial state and right after \<^verbatim>\<open>CheckActiveState\<close>,
  \<^verbatim>\<open>GetChainLockByHash\<close> returns true for the null hash and writes the default CLSIG
  (height -1, null block hash) into \<open>ret\<close>; for every other hash it returns false and
  leaves \<open>ret\<close> as it was.
\<close>

theorem GetChainLockByHash_after_reset:
  "s = initial_handler spork enforced \<or> s = CheckActiveState s0 \<Longrightarrow>
     GetChainLockByHash s 0 ret = (True, \<lparr>nHeight = - 1, blockHash = 0, sig = 0\<rparr>)
     \<and> (h \<noteq> 0 \<longrightarrow> GetChainLockByHash s h ret = (False, ret))"
  by (auto simp: GetChainLockByHash_def initial_handler_def CheckActiveState_def
      CChainLockSig_default_def)

text \<open>
  C10 after a reset of the handler that held the lock for height 2: the null hash is
  answered with the default CLSIG, the hash 13 of the former best lock is not known.
\<close>

theorem GetChainLockByHash_after_reset_witness:
  "GetChainLockByHash (CheckActiveState lockedAt2) 0 clsig1
     = (True, \<lparr>nHeight = - 1, blockHash = 0, sig = 0\<rparr>)
   \<and> (13 :: uint256) \<noteq> 0
   \<and> GetChainLockByHash (CheckActiveState lockedAt2) 13 clsig1 = (False, clsig1)
   \<and> GetChainLockByHash (initial_handler False False) 0 clsig1
     = (True, \<lparr>nHeight = - 1, blockHash = 0, sig = 0\<rparr>)"
proof -
  have a: "(13 :: uint256) \<noteq> 0" by simp
  have r: "CheckActiveState lockedAt2 = initial_handler False False
           \<or> CheckActiveState lockedAt2 = CheckActiveState lockedAt2"
    by simp
  have i: "initial_handler False False = initial_handler False False
           \<or> initial_handler False False = CheckActiveState lockedAt2"
    by simp
  from GetChainLockByHash_after_reset[OF r, of clsig1 13] a
  have b: "GetChainLockByHash (CheckActiveState lockedAt2) 0 clsig1
             = (True, \<lparr>nHeight = - 1, blockHash = 0, sig = 0\<rparr>)"
    and c: "GetChainLockByHash (CheckActiveState lockedAt2) 13 clsig1 = (False, clsig1)"
    by blast+
  from GetChainLockByHash_after_reset[OF i, of clsig1 13]
  have d: "GetChainLockByHash (initial_handler False False) 0 clsig1
             = (True, \<lparr>nHeight = - 1, blockHash = 0, sig = 0\<rparr>)"
    by blast
  show ?thesis by (rule conjI[OF b conjI[OF a conjI[OF c d]]])
qed

end
